theory Spec2Isabelle
  imports Main "HOL-Library.Word"
begin

unbundle bit_operations_syntax

section \<open>Python values used by devsim.py\<close>

text \<open>
  The script devsim.py builds one sequential data block, three slave contexts over it and a
  server context, then starts a thread running \<open>sync\<close> and a Modbus/TCP server. The
  exceptions that the calls of the script can raise are values of \<open>py_error\<close>; a call that
  can raise returns \<open>py_error + 'a\<close>.
\<close>

datatype py_error =
  KeyError | IndexError | ValueError | TypeError | AttributeError | NoSuchSlaveException

text \<open>
  Python list slicing with explicit integer bounds, \<open>xs[i:j]\<close>: a negative bound counts
  from the end, and every bound is clamped to \<open>0..len(xs)\<close>.
\<close>

definition slice_bound :: "int \<Rightarrow> nat \<Rightarrow> nat" where
  "slice_bound i n = (if i < 0 then nat (i + int n) else min (nat i) n)"

text \<open>Reading \<open>xs[i:j]\<close>: empty when the clamped upper bound is below the lower one.\<close>

definition get_slice :: "'a list \<Rightarrow> int \<Rightarrow> int \<Rightarrow> 'a list" where
  "get_slice xs i j =
     (let lo = slice_bound i (length xs); hi = slice_bound j (length xs)
      in take (hi - lo) (drop lo xs))"

text \<open>
  Slice assignment \<open>xs[i:j] = vs\<close>: the elements from the lower to the upper bound are
  replaced by \<open>vs\<close>, whatever the length of \<open>vs\<close>; the list shrinks or grows.
\<close>

definition set_slice :: "'a list \<Rightarrow> int \<Rightarrow> int \<Rightarrow> 'a list \<Rightarrow> 'a list" where
  "set_slice xs i j vs =
     (let lo = slice_bound i (length xs); hi = max lo (slice_bound j (length xs))
      in take lo xs @ vs @ drop hi xs)"

text \<open>\<open>range(a, b)\<close> as a list.\<close>

definition py_range :: "int \<Rightarrow> int \<Rightarrow> int list" where
  "py_range a b = map (\<lambda>k. a + int k) [0 ..< nat (b - a)]"

section \<open>The pymodbus datastore, as the script calls it\<close>

text \<open>
  The classes below are those that devsim.py imports from \<open>pymodbus.datastore\<close> (the
  script is written against pymodbus 2.x, which still has \<open>pymodbus.server.sync\<close>).
  Their bodies are not part of the repository; each operation is modelled as the library
  defines it.
\<close>

subsection \<open>ModbusSequentialDataBlock\<close>

text \<open>
  \<^verbatim>\<open>
  def __init__(self, address, values):
      self.address = address
      self.values = list(values)
      self.default_value = self.values[0].__class__()
  def validate(self, address, count=1):
      result  = (self.address <= address)
      result &= ((self.address + len(self.values)) >= (address + count))
      return result
  def getValues(self, address, count=1):
      start = address - self.address
      return self.values[start:start + count]
  def setValues(self, address, values):
      start = address - self.address
      self.values[start:start + len(values)] = values
  \<close>
\<close>

record data_block =
  block_address :: int
  block_values :: "int list"
  default_value :: int

definition ModbusSequentialDataBlock :: "int \<Rightarrow> int list \<Rightarrow> py_error + data_block" where
  "ModbusSequentialDataBlock a vs =
     (case vs of
        [] \<Rightarrow> Inl IndexError
      | _ # _ \<Rightarrow> Inr \<lparr>block_address = a, block_values = vs, default_value = 0\<rparr>)"

definition block_validate :: "data_block \<Rightarrow> int \<Rightarrow> int \<Rightarrow> bool" where
  "block_validate b a n =
     (block_address b \<le> a \<and> block_address b + int (length (block_values b)) \<ge> a + n)"

definition block_getValues :: "data_block \<Rightarrow> int \<Rightarrow> int \<Rightarrow> int list" where
  "block_getValues b a n =
     (let start = a - block_address b in get_slice (block_values b) start (start + n))"

definition block_setValues :: "data_block \<Rightarrow> int \<Rightarrow> int list \<Rightarrow> data_block" where
  "block_setValues b a vs =
     (let start = a - block_address b
      in b\<lparr>block_values := set_slice (block_values b) start (start + int (length vs)) vs\<rparr>)"

subsection \<open>The heap of data blocks\<close>

text \<open>
  A data block is a mutable object that several slave contexts may hold: the contexts keep
  references, and the heap gives each reference its block.
\<close>

type_synonym ref = nat
type_synonym heap = "ref \<Rightarrow> data_block"

subsection \<open>ModbusSlaveContext\<close>

text \<open>
  \<^verbatim>\<open>
  __fx_mapper = {2: 'd', 4: 'i'}
  __fx_mapper.update([(i, 'h') for i in [3, 6, 16, 22, 23]])
  __fx_mapper.update([(i, 'c') for i in [1, 5, 15]])
  def decode(self, fx):
      return self.__fx_mapper[fx]

  def __init__(self, *args, **kwargs):
      self.store = dict()
      self.store['d'] = kwargs.get('di', ...)
      self.store['c'] = kwargs.get('co', ...)
      self.store['i'] = kwargs.get('ir', ...)
      self.store['h'] = kwargs.get('hr', ...)
      self.zero_mode = kwargs.get('zero_mode', False)
  def validate(self, fx, address, count=1):
      if not self.zero_mode: address = address + 1
      return self.store[self.decode(fx)].validate(address, count)
  def getValues(self, fx, address, count=1):
      if not self.zero_mode: address = address + 1
      return self.store[self.decode(fx)].getValues(address, count)
  def setValues(self, fx, address, values):
      if not self.zero_mode: address = address + 1
      self.store[self.decode(fx)].setValues(address, values)
  \<close>
  The script passes all four of \<open>di\<close>, \<open>co\<close>, \<open>hr\<close>, \<open>ir\<close> and never \<open>zero_mode\<close>.
\<close>

record slave_context =
  store :: "char \<rightharpoonup> ref"
  zero_mode :: bool

definition fx_mapper :: "int \<rightharpoonup> char" where
  "fx_mapper =
     [2 \<mapsto> CHR ''d'', 4 \<mapsto> CHR ''i'',
      3 \<mapsto> CHR ''h'', 6 \<mapsto> CHR ''h'', 16 \<mapsto> CHR ''h'', 22 \<mapsto> CHR ''h'', 23 \<mapsto> CHR ''h'',
      1 \<mapsto> CHR ''c'', 5 \<mapsto> CHR ''c'', 15 \<mapsto> CHR ''c'']"

definition decode :: "int \<Rightarrow> py_error + char" where
  "decode fx = (case fx_mapper fx of None \<Rightarrow> Inl KeyError | Some c \<Rightarrow> Inr c)"

definition ModbusSlaveContext :: "ref \<Rightarrow> ref \<Rightarrow> ref \<Rightarrow> ref \<Rightarrow> slave_context" where
  "ModbusSlaveContext di co hr ir =
     \<lparr>store = [CHR ''d'' \<mapsto> di, CHR ''c'' \<mapsto> co, CHR ''i'' \<mapsto> ir, CHR ''h'' \<mapsto> hr],
      zero_mode = False\<rparr>"

text \<open>\<open>self.store[self.decode(fx)]\<close>: the reference of the bank a function code selects.\<close>

definition bank_ref :: "slave_context \<Rightarrow> int \<Rightarrow> py_error + ref" where
  "bank_ref s fx =
     (case decode fx of
        Inl e \<Rightarrow> Inl e
      | Inr c \<Rightarrow> (case store s c of None \<Rightarrow> Inl KeyError | Some r \<Rightarrow> Inr r))"

definition slave_address :: "slave_context \<Rightarrow> int \<Rightarrow> int" where
  "slave_address s a = (if \<not> zero_mode s then a + 1 else a)"

definition slave_validate :: "slave_context \<Rightarrow> heap \<Rightarrow> int \<Rightarrow> int \<Rightarrow> int \<Rightarrow> py_error + bool" where
  "slave_validate s h fx a n =
     (case bank_ref s fx of
        Inl e \<Rightarrow> Inl e
      | Inr r \<Rightarrow> Inr (block_validate (h r) (slave_address s a) n))"

definition slave_getValues :: "slave_context \<Rightarrow> heap \<Rightarrow> int \<Rightarrow> int \<Rightarrow> int \<Rightarrow> py_error + int list" where
  "slave_getValues s h fx a n =
     (case bank_ref s fx of
        Inl e \<Rightarrow> Inl e
      | Inr r \<Rightarrow> Inr (block_getValues (h r) (slave_address s a) n))"

definition slave_setValues :: "slave_context \<Rightarrow> int \<Rightarrow> int \<Rightarrow> int list \<Rightarrow> heap \<Rightarrow> py_error + heap" where
  "slave_setValues s fx a vs h =
     (case bank_ref s fx of
        Inl e \<Rightarrow> Inl e
      | Inr r \<Rightarrow> Inr (h(r := block_setValues (h r) (slave_address s a) vs)))"

subsection \<open>ModbusServerContext\<close>

text \<open>
  \<^verbatim>\<open>
  def __init__(self, slaves=None, single=True):
      self.single = single
      self._slaves = slaves or {}
      if self.single:
          self._slaves = {Defaults.UnitId: self._slaves}
  def __getitem__(self, slave):
      if self.single: slave = Defaults.UnitId
      if slave in self._slaves: return self._slaves.get(slave)
      else: raise NoSuchSlaveException(...)
  \<close>
  \<open>Defaults.UnitId\<close> is 0. The argument \<open>slaves\<close> is a slave context in single mode and a
  dictionary of slave contexts otherwise; Python does not check which one it gets. So an
  entry of the table is either, and in multi mode \<open>_slaves\<close> is whatever was passed: if it
  is a slave context and no dictionary, the test \<open>slave in self._slaves\<close> raises TypeError.
  (An empty dictionary is falsy and replaced by \<open>{}\<close>, which is the same table.)
\<close>

datatype slaves_obj = Slave slave_context | Dict "int \<rightharpoonup> slave_context"

datatype slave_table = Table "int \<rightharpoonup> slaves_obj" | NoTable slave_context

record server_context =
  single :: bool
  slaves :: slave_table

definition ModbusServerContext :: "slaves_obj \<Rightarrow> bool \<Rightarrow> server_context" where
  "ModbusServerContext sl sgl =
     (if sgl then \<lparr>single = sgl, slaves = Table [0 \<mapsto> sl]\<rparr>
      else (case sl of
              Dict d \<Rightarrow> \<lparr>single = sgl, slaves = Table (\<lambda>k. map_option Slave (d k))\<rparr>
            | Slave s \<Rightarrow> \<lparr>single = sgl, slaves = NoTable s\<rparr>))"

definition context_getitem :: "server_context \<Rightarrow> int \<Rightarrow> py_error + slaves_obj" where
  "context_getitem ctx slave =
     (let k = (if single ctx then 0 else slave)
      in case slaves ctx of
           NoTable s \<Rightarrow> Inl TypeError
         | Table t \<Rightarrow> (case t k of None \<Rightarrow> Inl NoSuchSlaveException | Some x \<Rightarrow> Inr x))"

text \<open>\<open>context[slave_id].setValues(fx, address, values)\<close>.\<close>

definition context_setValues ::
  "server_context \<Rightarrow> int \<Rightarrow> int \<Rightarrow> int \<Rightarrow> int list \<Rightarrow> heap \<Rightarrow> py_error + heap" where
  "context_setValues ctx slave_id fx a vs h =
     (case context_getitem ctx slave_id of
        Inl e \<Rightarrow> Inl e
      | Inr (Dict d) \<Rightarrow> Inl AttributeError
      | Inr (Slave s) \<Rightarrow> slave_setValues s fx a vs h)"

text \<open>\<open>context[slave_id].getValues(fx, address, count)\<close>.\<close>

definition context_getValues ::
  "server_context \<Rightarrow> heap \<Rightarrow> int \<Rightarrow> int \<Rightarrow> int \<Rightarrow> int \<Rightarrow> py_error + int list" where
  "context_getValues ctx h slave_id fx a n =
     (case context_getitem ctx slave_id of
        Inl e \<Rightarrow> Inl e
      | Inr (Dict d) \<Rightarrow> Inl AttributeError
      | Inr (Slave s) \<Rightarrow> slave_getValues s h fx a n)"

subsection \<open>ReadInputRegistersRequest\<close>

text \<open>
  What the library's server does with a decoded read-input-registers request for a unit
  id of the context: it looks the unit id up in the server context and calls the request's
  \<open>execute\<close> on the slave context.
  \<^verbatim>\<open>
  class ReadInputRegistersRequest(ReadRegistersRequestBase):
      function_code = 4
      def execute(self, context):
          if not (1 <= self.count <= 0x7d):
              return self.doException(merror.IllegalValue)
          if not context.validate(self.function_code, self.address, self.count):
              return self.doException(merror.IllegalAddress)
          values = context.getValues(self.function_code, self.address, self.count)
          return ReadInputRegistersResponse(values)
  \<close>
  \<open>doException(code)\<close> is an \<open>ExceptionResponse\<close> with the function code OR 0x80;
  \<open>IllegalValue\<close> is 3 and \<open>IllegalAddress\<close> is 2.
\<close>

datatype pdu_response = ReadInputRegistersResponse "int list" | ExceptionResponse int int

definition doException :: "int \<Rightarrow> int \<Rightarrow> pdu_response" where
  "doException fc code = ExceptionResponse (fc OR 0x80) code"

definition execute :: "slave_context \<Rightarrow> heap \<Rightarrow> int \<Rightarrow> int \<Rightarrow> py_error + pdu_response" where
  "execute ctx h a n =
     (if \<not> (1 \<le> n \<and> n \<le> 0x7d) then Inr (doException 4 3)
      else (case slave_validate ctx h 4 a n of
              Inl e \<Rightarrow> Inl e
            | Inr ok \<Rightarrow>
                if \<not> ok then Inr (doException 4 2)
                else (case slave_getValues ctx h 4 a n of
                        Inl e \<Rightarrow> Inl e
                      | Inr vs \<Rightarrow> Inr (ReadInputRegistersResponse vs))))"

section \<open>devsim.py\<close>

subsection \<open>The state the refresher thread works on\<close>

text \<open>
  \<open>random.seed()\<close> seeds the generator from the operating system: the entropy is a
  parameter \<open>raw\<close>, any sequence of naturals, and the generator's state is the position in
  it. \<open>random.randint(a, b)\<close> returns an integer of \<open>a..b\<close> and raises ValueError on an
  empty range; which integer is the generator's business, and the model takes it from the
  entropy, so that every integer of the range can come out. \<open>time.sleep(0.1)\<close> adds 100
  milliseconds to the time slept.
\<close>

record world =
  heap :: heap
  rng_pos :: nat
  slept_ms :: nat

definition randint :: "(nat \<Rightarrow> nat) \<Rightarrow> int \<Rightarrow> int \<Rightarrow> nat \<Rightarrow> py_error + (int \<times> nat)" where
  "randint raw a b pos =
     (if b < a then Inl ValueError
      else Inr (a + int (raw pos mod nat (b - a + 1)), Suc pos))"

text \<open>\<open>[random.randint(a, b) for i in range(k)]\<close>\<close>

fun randint_list ::
  "(nat \<Rightarrow> nat) \<Rightarrow> nat \<Rightarrow> int \<Rightarrow> int \<Rightarrow> nat \<Rightarrow> py_error + (int list \<times> nat)" where
  "randint_list raw 0 a b pos = Inr ([], pos)"
| "randint_list raw (Suc k) a b pos =
     (case randint raw a b pos of
        Inl e \<Rightarrow> Inl e
      | Inr (v, pos') \<Rightarrow>
          (case randint_list raw k a b pos' of
             Inl e \<Rightarrow> Inl e
           | Inr (vs, pos'') \<Rightarrow> Inr (v # vs, pos'')))"

subsection \<open>sync\<close>

text \<open>
  \<^verbatim>\<open>
  def sync(context):
      random.seed()
      while True:
          values = [random.randint(0, 1000) for i in range(10)]
          for slave_id in range(1, 4):
              context[slave_id].setValues(4, 0, values)
          time.sleep(0.1)
  \<close>
\<close>

text \<open>The inner \<open>for\<close> loop, over the slave ids still to be written.\<close>

fun write_slaves :: "server_context \<Rightarrow> int list \<Rightarrow> int list \<Rightarrow> heap \<Rightarrow> py_error + heap" where
  "write_slaves ctx [] vs h = Inr h"
| "write_slaves ctx (slave_id # ids) vs h =
     (case context_setValues ctx slave_id 4 0 vs h of
        Inl e \<Rightarrow> Inl e
      | Inr h' \<Rightarrow> write_slaves ctx ids vs h')"

text \<open>The values that the iteration starting at position \<open>pos\<close> of the entropy draws.\<close>

definition sync_values :: "(nat \<Rightarrow> nat) \<Rightarrow> nat \<Rightarrow> py_error + (int list \<times> nat)" where
  "sync_values raw pos = randint_list raw 10 0 1000 pos"

text \<open>One iteration of the \<open>while True\<close> loop.\<close>

definition sync_iteration :: "(nat \<Rightarrow> nat) \<Rightarrow> server_context \<Rightarrow> world \<Rightarrow> py_error + world" where
  "sync_iteration raw ctx w =
     (case sync_values raw (rng_pos w) of
        Inl e \<Rightarrow> Inl e
      | Inr (vs, pos') \<Rightarrow>
          (case write_slaves ctx (py_range 1 4) vs (heap w) of
             Inl e \<Rightarrow> Inl e
           | Inr h' \<Rightarrow> Inr \<lparr>heap = h', rng_pos = pos', slept_ms = slept_ms w + 100\<rparr>))"

text \<open>
  The loop has no exit: its condition is the constant \<open>True\<close> and its body has no
  \<open>break\<close> or \<open>return\<close>. \<open>sync n\<close> is the state after \<open>n\<close> iterations, or the exception
  that ended the thread before.
\<close>

fun sync :: "nat \<Rightarrow> (nat \<Rightarrow> nat) \<Rightarrow> server_context \<Rightarrow> world \<Rightarrow> py_error + world" where
  "sync 0 raw ctx w = Inr w"
| "sync (Suc n) raw ctx w =
     (case sync_iteration raw ctx w of
        Inl e \<Rightarrow> Inl e
      | Inr w' \<Rightarrow> sync n raw ctx w')"

subsection \<open>The main program\<close>

text \<open>
  \<^verbatim>\<open>
  block = ModbusSequentialDataBlock(0, [0]*10)
  slaves = {
      1: ModbusSlaveContext(di=block, co=block, hr=block, ir=block),
      2: ModbusSlaveContext(di=block, co=block, hr=block, ir=block),
      3: ModbusSlaveContext(di=block, co=block, hr=block, ir=block)
  }
  context = ModbusServerContext(slaves=slaves, single=False)
  \<close>
  The block is the first object allocated: its reference is 0, and no other reference of
  the heap is ever used.
\<close>

definition block :: ref where
  "block = 0"

definition empty_heap :: heap where
  "empty_heap = (\<lambda>r. \<lparr>block_address = 0, block_values = [], default_value = 0\<rparr>)"

definition main_slaves :: "int \<rightharpoonup> slave_context" where
  "main_slaves =
     [1 \<mapsto> ModbusSlaveContext block block block block,
      2 \<mapsto> ModbusSlaveContext block block block block,
      3 \<mapsto> ModbusSlaveContext block block block block]"

definition main_context :: server_context where
  "main_context = ModbusServerContext (Dict main_slaves) False"

definition main :: "py_error + world" where
  "main =
     (case ModbusSequentialDataBlock 0 (replicate 10 0) of
        Inl e \<Rightarrow> Inl e
      | Inr b \<Rightarrow> Inr \<lparr>heap = empty_heap(block := b), rng_pos = 0, slept_ms = 0\<rparr>)"

text \<open>The program up to the end of the refresher's \<open>n\<close>-th iteration.\<close>

definition run :: "nat \<Rightarrow> (nat \<Rightarrow> nat) \<Rightarrow> py_error + world" where
  "run n raw = (case main of Inl e \<Rightarrow> Inl e | Inr w \<Rightarrow> sync n raw main_context w)"

section \<open>Runs of the program seen from outside\<close>

text \<open>\<open>context[slave_id].getValues(fx, address, count)\<close> on the heap of a run.\<close>

definition read_bank :: "py_error + world \<Rightarrow> int \<Rightarrow> int \<Rightarrow> int \<Rightarrow> int \<Rightarrow> py_error + int list" where
  "read_bank st slave_id fx a n =
     (case st of Inl e \<Rightarrow> Inl e | Inr w \<Rightarrow> context_getValues main_context (heap w) slave_id fx a n)"

text \<open>\<open>context[slave_id].setValues(fx, address, values)\<close> on the heap of a run.\<close>

definition write_bank :: "py_error + world \<Rightarrow> int \<Rightarrow> int \<Rightarrow> int \<Rightarrow> int list \<Rightarrow> py_error + world" where
  "write_bank st slave_id fx a vs =
     (case st of
        Inl e \<Rightarrow> Inl e
      | Inr w \<Rightarrow>
          (case context_setValues main_context slave_id fx a vs (heap w) of
             Inl e \<Rightarrow> Inl e
           | Inr h' \<Rightarrow> Inr (w\<lparr>heap := h'\<rparr>)))"

text \<open>
  A read-input-registers request for a unit id on the heap of a run:
  \<open>request.execute(context[unit_id])\<close>.
\<close>

definition read_input_registers :: "py_error + world \<Rightarrow> int \<Rightarrow> int \<Rightarrow> int \<Rightarrow> py_error + pdu_response" where
  "read_input_registers st slave_id a n =
     (case st of
        Inl e \<Rightarrow> Inl e
      | Inr w \<Rightarrow>
          (case context_getitem main_context slave_id of
             Inl e \<Rightarrow> Inl e
           | Inr (Dict d) \<Rightarrow> Inl AttributeError
           | Inr (Slave s) \<Rightarrow> execute s (heap w) a n))"

text \<open>The contents of the script's data block on the heap of a run.\<close>

definition block_contents :: "py_error + world \<Rightarrow> py_error + int list" where
  "block_contents st = (case st of Inl e \<Rightarrow> Inl e | Inr w \<Rightarrow> Inr (block_values (heap w block)))"

text \<open>A sample of entropy for concrete runs.\<close>

definition sample_raw :: "nat \<Rightarrow> nat" where
  "sample_raw i = 7 * i + 5"

section \<open>The request dispatcher of the specification\<close>

text \<open>
  The script hands the context to \<open>StartTcpServer\<close>: decoding frames and answering a
  request for a unit id that the context does not have is not code of the repository. This
  part is written after sections 3, 4.3 and 4.4 of the specification, where the SlaveTable is
  the server context, a RegisterStore is a slave context, \<open>RegisterStore.read\<close> is
  \<open>getValues\<close> and the range validation is \<open>validate\<close>.
\<close>

text \<open>Modelled from the spec: the decoded request frame of section 3 (the length field
  belongs to the codec), with the payload of a register read: starting address and quantity.\<close>

record request =
  transaction_id :: "16 word"
  protocol_id :: "16 word"
  unit_id :: "8 word"
  function_code :: "8 word"
  address :: "16 word"
  quantity :: "16 word"

text \<open>Modelled from the spec: the response frame of section 3, before the codec adds the
  length field.\<close>

record response =
  rsp_transaction_id :: "16 word"
  rsp_unit_id :: "8 word"
  rsp_function_code :: "8 word"
  rsp_payload :: "8 word list"

text \<open>Modelled from the spec: section 4.3, an exception response has the function code OR
  0x80 and a single exception-code byte as payload.\<close>

definition exception_response :: "request \<Rightarrow> 8 word \<Rightarrow> response" where
  "exception_response rq code =
     \<lparr>rsp_transaction_id = transaction_id rq, rsp_unit_id = unit_id rq,
      rsp_function_code = function_code rq OR 0x80, rsp_payload = [code]\<rparr>"

text \<open>Modelled from the spec: section 4.4 step 4, a register value on the wire is 16 bits,
  big-endian.\<close>

definition be16 :: "int \<Rightarrow> 8 word list" where
  "be16 v = [word_of_int (v div 256), word_of_int v]"

text \<open>Modelled from the spec: section 4.4 step 4, the normal response to a register read is
  the byte count followed by the big-endian 16-bit values.\<close>

definition read_response :: "request \<Rightarrow> int list \<Rightarrow> response" where
  "read_response rq vs =
     \<lparr>rsp_transaction_id = transaction_id rq, rsp_unit_id = unit_id rq,
      rsp_function_code = function_code rq,
      rsp_payload = word_of_int (2 * int (length vs)) # concat (map be16 vs)\<rparr>"

text \<open>Modelled from the spec: the RequestDispatcher of section 4.4, which the script leaves to
  the library's server. Step 1 resolves the unit id, an unknown one gives exception code 11;
  step 2 accepts function codes 3 and 4, any other gives exception code 1; step 3 validates
  the starting address and the quantity (1..125) against the bank, out of range gives
  exception code 2; step 4 reads the registers and builds the normal response. A table entry
  that is no slave context, or a read that raises, gives exception code 4 (slave device
  failure). The dispatcher returns a response only: it has no write access to the heap.\<close>

definition dispatch :: "server_context \<Rightarrow> heap \<Rightarrow> request \<Rightarrow> response" where
  "dispatch ctx h rq =
     (case context_getitem ctx (uint (unit_id rq)) of
        Inl e \<Rightarrow> exception_response rq 11
      | Inr (Dict d) \<Rightarrow> exception_response rq 4
      | Inr (Slave s) \<Rightarrow>
          (if function_code rq \<noteq> 3 \<and> function_code rq \<noteq> 4 then exception_response rq 1
           else
             (let fx = uint (function_code rq); a = uint (address rq); n = uint (quantity rq)
              in if n < 1 \<or> 125 < n \<or> slave_validate s h fx a n \<noteq> Inr True
                 then exception_response rq 2
                 else (case slave_getValues s h fx a n of
                         Inl e \<Rightarrow> exception_response rq 4
                       | Inr vs \<Rightarrow> read_response rq vs))))"

text \<open>Modelled from the spec: the dispatcher on the heap of a run of the program.\<close>

definition serve :: "py_error + world \<Rightarrow> request \<Rightarrow> py_error + response" where
  "serve st rq = (case st of Inl e \<Rightarrow> Inl e | Inr w \<Rightarrow> Inr (dispatch main_context (heap w) rq))"

text \<open>Modelled from the spec: a request frame for ten registers from address 0.\<close>

definition read_request :: "8 word \<Rightarrow> 8 word \<Rightarrow> request" where
  "read_request uid fc =
     \<lparr>transaction_id = 1, protocol_id = 0, unit_id = uid, function_code = fc,
      address = 0, quantity = 10\<rparr>"

section \<open>Slices, random draws and the main program\<close>

lemma slice_bound_nonneg: "0 \<le> i \<Longrightarrow> slice_bound i n = min (nat i) n"
  by (simp add: slice_bound_def)

lemma set_slice_inside:
  assumes "0 \<le> i" and "nat i \<le> length xs"
  shows "set_slice xs i (i + int (length vs)) vs =
           take (nat i) xs @ vs @ drop (nat i + length vs) xs"
proof -
  have lo: "slice_bound i (length xs) = nat i"
    using assms by (simp add: slice_bound_nonneg)
  have hi: "slice_bound (i + int (length vs)) (length xs) = min (nat i + length vs) (length xs)"
    using assms by (simp add: slice_bound_nonneg nat_add_distrib)
  show ?thesis
  proof (cases "nat i + length vs \<le> length xs")
    case True
    then show ?thesis by (simp add: set_slice_def lo hi max_def Let_def)
  next
    case False
    then show ?thesis using assms by (simp add: set_slice_def lo hi max_def Let_def)
  qed
qed

lemma get_slice_inside:
  assumes "0 \<le> i" and "0 \<le> n"
  shows "get_slice xs i (i + n) = take (nat n) (drop (nat i) xs)"
proof -
  have lo: "slice_bound i (length xs) = min (nat i) (length xs)"
    using assms by (simp add: slice_bound_nonneg)
  have hi: "slice_bound (i + n) (length xs) = min (nat i + nat n) (length xs)"
    using assms by (simp add: slice_bound_nonneg nat_add_distrib)
  show ?thesis
  proof (cases "nat i \<le> length xs")
    case True
    then show ?thesis by (simp add: get_slice_def lo hi Let_def min_def)
  next
    case False
    then show ?thesis by (simp add: get_slice_def lo hi Let_def min_def)
  qed
qed

lemma get_set_slice:
  assumes "0 \<le> i" and "nat i \<le> length xs \<or> vs = []"
  shows "get_slice (set_slice xs i (i + int (length vs)) vs) i (i + int (length vs)) = vs"
proof (cases "nat i \<le> length xs")
  case True
  then show ?thesis
    using assms(1) by (simp add: set_slice_inside get_slice_inside)
next
  case False
  then have "vs = []" using assms(2) by simp
  then show ?thesis using get_slice_inside [of i 0] assms(1) by simp
qed

lemma randint_range:
  assumes "a \<le> b"
  shows "a \<le> a + int (r mod nat (b - a + 1)) \<and> a + int (r mod nat (b - a + 1)) \<le> b"
proof -
  have "0 < nat (b - a + 1)" using assms by simp
  then have "r mod nat (b - a + 1) < nat (b - a + 1)" by (rule mod_less_divisor)
  then have "int (r mod nat (b - a + 1)) < b - a + 1" using assms by linarith
  then show ?thesis by simp
qed

lemma randint_list_ok:
  assumes "a \<le> b"
  shows "\<exists>vs. randint_list raw k a b pos = Inr (vs, pos + k) \<and> length vs = k
            \<and> (\<forall>v \<in> set vs. a \<le> v \<and> v \<le> b)"
proof (induction k arbitrary: pos)
  case 0
  then show ?case by simp
next
  case (Suc k)
  obtain vs where vs: "randint_list raw k a b (Suc pos) = Inr (vs, Suc pos + k)"
    "length vs = k" "\<forall>v \<in> set vs. a \<le> v \<and> v \<le> b"
    using Suc.IH [of "Suc pos"] by blast
  show ?case
    using assms vs randint_range [OF assms, of "raw pos"] by (simp add: randint_def)
qed


lemma py_range_1_4: "py_range 1 4 = [1, 2, 3]"
  by (simp add: py_range_def upt_conv_Cons)

lemma main_eq:
  "main = Inr \<lparr>heap = empty_heap(block := \<lparr>block_address = 0, block_values = replicate 10 0,
                   default_value = 0\<rparr>), rng_pos = 0, slept_ms = 0\<rparr>"
  by (simp add: main_def ModbusSequentialDataBlock_def numeral_eq_Suc)

lemma main_getitem:
  "context_getitem main_context k =
     (if k = 1 \<or> k = 2 \<or> k = 3 then Inr (Slave (ModbusSlaveContext block block block block))
      else Inl NoSuchSlaveException)"
  by (simp add: context_getitem_def main_context_def ModbusServerContext_def main_slaves_def)

lemma bank_ref_shared:
  "bank_ref (ModbusSlaveContext r r r r) fx = (if fx \<in> dom fx_mapper then Inr r else Inl KeyError)"
  by (auto simp: bank_ref_def decode_def ModbusSlaveContext_def fx_mapper_def split: if_splits)

lemma fx4_mapped: "4 \<in> dom fx_mapper"
  by (simp add: fx_mapper_def)

lemma slave_address_main [simp]: "slave_address (ModbusSlaveContext di co hr ir) a = a + 1"
  by (simp add: slave_address_def ModbusSlaveContext_def)

lemma block_setValues_one:
  assumes "block_address b = 0" and "block_values b = x # xs"
  shows "block_setValues b 1 vs = b\<lparr>block_values := x # vs @ drop (length vs) xs\<rparr>"
  using assms set_slice_inside [of 1 "x # xs" vs] by (simp add: block_setValues_def)

lemma main_setValues:
  assumes "k = 1 \<or> k = 2 \<or> k = 3" and "block_address (h block) = 0"
    and "block_values (h block) = x # xs"
  shows "context_setValues main_context k 4 0 vs h =
           Inr (h(block := (h block)\<lparr>block_values := x # vs @ drop (length vs) xs\<rparr>))"
  using assms
  by (simp add: context_setValues_def main_getitem slave_setValues_def bank_ref_shared fx4_mapped
      block_setValues_one)

lemma write_slaves_main:
  assumes "block_address (h block) = 0" and "block_values (h block) = x # xs"
  shows "write_slaves main_context (py_range 1 4) vs h =
           Inr (h(block := (h block)\<lparr>block_values := x # vs @ drop (length vs) xs\<rparr>))"
proof -
  let ?h = "h(block := (h block)\<lparr>block_values := x # vs @ drop (length vs) xs\<rparr>)"
  have a: "block_address (?h block) = 0" using assms by simp
  have v: "block_values (?h block) = x # (vs @ drop (length vs) xs)" by simp
  have first: "context_setValues main_context 1 4 0 vs h = Inr ?h"
    using assms by (simp add: main_setValues)
  have again: "context_setValues main_context k 4 0 vs ?h = Inr ?h" if "k = 1 \<or> k = 2 \<or> k = 3" for k
    using main_setValues [of k ?h x "vs @ drop (length vs) xs" vs] that a v by simp
  show ?thesis
    using first again [of 2] again [of 3] by (simp add: py_range_1_4)
qed

lemma sync_values_ok:
  "\<exists>vs. sync_values raw pos = Inr (vs, pos + 10) \<and> length vs = 10
       \<and> (\<forall>v \<in> set vs. 0 \<le> v \<and> v \<le> 1000)"
  unfolding sync_values_def by (rule randint_list_ok) simp

lemma sync_iteration_main:
  assumes "block_address (heap w block) = 0" and "block_values (heap w block) = x # xs"
    and "sync_values raw (rng_pos w) = Inr (vs, p)"
  shows "sync_iteration raw main_context w =
           Inr \<lparr>heap = (heap w)(block := (heap w block)\<lparr>block_values := x # vs @ drop (length vs) xs\<rparr>),
                rng_pos = p, slept_ms = slept_ms w + 100\<rparr>"
  using assms by (simp add: sync_iteration_def write_slaves_main)

lemma sync_snoc:
  "sync (Suc n) raw ctx w =
     (case sync n raw ctx w of Inl e \<Rightarrow> Inl e | Inr w' \<Rightarrow> sync_iteration raw ctx w')"
proof (induction n arbitrary: w)
  case 0
  show ?case by (simp split: sum.splits)
next
  case (Suc n)
  show ?case
  proof (cases "sync_iteration raw ctx w")
    case (Inl e)
    then show ?thesis by simp
  next
    case (Inr w1)
    then show ?thesis using Suc.IH [of w1] by simp
  qed
qed

lemma run_Suc:
  "run (Suc n) raw =
     (case run n raw of Inl e \<Rightarrow> Inl e | Inr w \<Rightarrow> sync_iteration raw main_context w)"
  by (simp add: run_def main_eq sync_snoc del: sync.simps)

lemma run_0: "run 0 raw = main"
  by (simp add: run_def main_eq)

text \<open>The state after any number of iterations.\<close>

lemma run_state:
  "\<exists>w x xs. run n raw = Inr w \<and> rng_pos w = 10 * n \<and> slept_ms w = 100 * n
      \<and> block_address (heap w block) = 0 \<and> block_values (heap w block) = x # xs
      \<and> x = 0 \<and> (length xs = 9 \<or> length xs = 10) \<and> (0 < n \<longrightarrow> length xs = 10) \<and> (\<forall>r. r \<noteq> block \<longrightarrow> heap w r = empty_heap r)"
proof (induction n)
  case 0
  show ?case by (simp add: run_0 main_eq numeral_eq_Suc)
next
  case (Suc n)
  then obtain w x xs where w: "run n raw = Inr w" "rng_pos w = 10 * n" "slept_ms w = 100 * n"
    "block_address (heap w block) = 0" "block_values (heap w block) = x # xs" "x = 0"
    "length xs = 9 \<or> length xs = 10" "\<forall>r. r \<noteq> block \<longrightarrow> heap w r = empty_heap r"
    by blast
  obtain vs where vs: "sync_values raw (rng_pos w) = Inr (vs, rng_pos w + 10)" "length vs = 10"
    using sync_values_ok [of raw "rng_pos w"] by blast
  show ?case
    using w vs sync_iteration_main [of w x xs raw vs "rng_pos w + 10"]
    by (auto simp: run_Suc)
qed

section \<open>The refresher\<close>

lemma main_getValues:
  assumes "k = 1 \<or> k = 2 \<or> k = 3" and "fx \<in> dom fx_mapper"
  shows "context_getValues main_context h k fx a n = Inr (block_getValues (h block) (a + 1) n)"
  using assms
  by (simp add: context_getValues_def main_getitem slave_getValues_def bank_ref_shared)

lemma main_setValues_any:
  assumes "k = 1 \<or> k = 2 \<or> k = 3" and "fx \<in> dom fx_mapper"
  shows "context_setValues main_context k fx a vs h =
           Inr (h(block := block_setValues (h block) (a + 1) vs))"
  using assms
  by (simp add: context_setValues_def main_getitem slave_setValues_def bank_ref_shared)

lemma block_getValues_one:
  assumes "block_address b = 0" and "block_values b = x # vs @ rest" and "n = int (length vs)"
  shows "block_getValues b 1 n = vs"
  using assms get_slice_inside [of 1 "int (length vs)" "x # vs @ rest"]
  by (simp add: block_getValues_def)

lemma fx_mapped: "fx = 1 \<or> fx = 2 \<or> fx = 3 \<or> fx = 4 \<Longrightarrow> fx \<in> dom fx_mapper"
  by (auto simp: fx_mapper_def)

text \<open>One iteration, from the state after \<open>n\<close> iterations.\<close>

lemma run_tick:
  "\<exists>w w' vs x xs. run n raw = Inr w \<and> run (Suc n) raw = Inr w'
      \<and> sync_iteration raw main_context w = Inr w'
      \<and> sync_values raw (rng_pos w) = Inr (vs, rng_pos w + 10) \<and> length vs = 10
      \<and> (\<forall>v \<in> set vs. 0 \<le> v \<and> v \<le> 1000)
      \<and> rng_pos w = 10 * n \<and> slept_ms w = 100 * n
      \<and> block_address (heap w block) = 0 \<and> block_values (heap w block) = x # xs
      \<and> x = 0 \<and> (length xs = 9 \<or> length xs = 10)
      \<and> w' = \<lparr>heap = (heap w)(block := (heap w block)\<lparr>block_values := 0 # vs\<rparr>),
               rng_pos = rng_pos w + 10, slept_ms = slept_ms w + 100\<rparr>"
proof -
  obtain w x xs where w: "run n raw = Inr w" "rng_pos w = 10 * n" "slept_ms w = 100 * n"
    "block_address (heap w block) = 0" "block_values (heap w block) = x # xs" "x = 0"
    "length xs = 9 \<or> length xs = 10"
    using run_state [of n raw] by blast
  obtain vs where vs: "sync_values raw (rng_pos w) = Inr (vs, rng_pos w + 10)" "length vs = 10"
    "\<forall>v \<in> set vs. 0 \<le> v \<and> v \<le> 1000"
    using sync_values_ok [of raw "rng_pos w"] by blast
  have step: "sync_iteration raw main_context w =
      Inr \<lparr>heap = (heap w)(block := (heap w block)\<lparr>block_values := 0 # vs\<rparr>),
           rng_pos = rng_pos w + 10, slept_ms = slept_ms w + 100\<rparr>"
    using sync_iteration_main [of w x xs raw vs "rng_pos w + 10"] w(4,5,6,7) vs(1,2) by auto
  show ?thesis
    using w vs step by (simp add: run_Suc)
qed

lemma randint_list_numeral:
  "randint_list raw (numeral k) a b pos =
     (case randint raw a b pos of
        Inl e \<Rightarrow> Inl e
      | Inr (v, pos') \<Rightarrow>
          (case randint_list raw (pred_numeral k) a b pos' of
             Inl e \<Rightarrow> Inl e
           | Inr (vs, pos'') \<Rightarrow> Inr (v # vs, pos'')))"
  by (simp add: numeral_eq_Suc)

lemma sample_values_0:
  "sync_values sample_raw 0 = Inr ([5, 12, 19, 26, 33, 40, 47, 54, 61, 68], 10)"
  by (simp add: sync_values_def randint_list_numeral randint_def sample_raw_def)

lemma write_slaves_tick:
  assumes "block_address (h block) = 0" and "block_values (h block) = x # xs"
    and "length xs \<le> length vs"
  shows "write_slaves main_context [1, 2, 3] vs h =
           Inr (h(block := (h block)\<lparr>block_values := x # vs\<rparr>))"
  using write_slaves_main [of h x xs vs] assms by (simp add: py_range_1_4)

text \<open>
  C1. Every iteration of the refresher draws one sequence of exactly 10 values, each from
  0 to 1000 (so each fits 16 bits), and writes it with function code 4 at offset 0 through
  slave ids 1, 2 and 3: afterwards offset 0, count 10 of the input-register bank of each of
  the three slaves reads that sequence. The iteration then sleeps 100 milliseconds, so
  \<open>n\<close> iterations have slept \<open>100 * n\<close> milliseconds.
\<close>

theorem refresher_tick:
  "\<exists>w w' vs. run n raw = Inr w \<and> sync_iteration raw main_context w = Inr w'
      \<and> run (Suc n) raw = Inr w'
      \<and> sync_values raw (rng_pos w) = Inr (vs, rng_pos w') \<and> length vs = 10
      \<and> (\<forall>v \<in> set vs. 0 \<le> v \<and> v \<le> 1000 \<and> v < 2 ^ 16)
      \<and> write_slaves main_context [1, 2, 3] vs (heap w) = Inr (heap w')
      \<and> (\<forall>slave_id \<in> {1, 2, 3}.
            context_getValues main_context (heap w') slave_id 4 0 10 = Inr vs)
      \<and> slept_ms w = 100 * n \<and> slept_ms w' = slept_ms w + 100"
proof -
  obtain w w' vs x xs where t: "run n raw = Inr w" "run (Suc n) raw = Inr w'"
    "sync_iteration raw main_context w = Inr w'"
    "sync_values raw (rng_pos w) = Inr (vs, rng_pos w + 10)" "length vs = 10"
    "\<forall>v \<in> set vs. 0 \<le> v \<and> v \<le> 1000" "slept_ms w = 100 * n"
    "block_address (heap w block) = 0" "block_values (heap w block) = x # xs"
    "length xs = 9 \<or> length xs = 10" "x = 0"
    "w' = \<lparr>heap = (heap w)(block := (heap w block)\<lparr>block_values := 0 # vs\<rparr>),
               rng_pos = rng_pos w + 10, slept_ms = slept_ms w + 100\<rparr>"
    using run_tick [of n raw] by blast
  have wr: "write_slaves main_context [1, 2, 3] vs (heap w) = Inr (heap w')"
    using write_slaves_tick [of "heap w" x xs vs] t(5,8,9,10,11,12) by auto
  have rd: "context_getValues main_context (heap w') k 4 0 10 = Inr vs"
    if "k = 1 \<or> k = 2 \<or> k = 3" for k
    using that t(5,8,12) block_getValues_one [of "heap w' block" 0 vs "[]" 10]
    by (simp add: main_getValues fx_mapped)
  have rng: "\<forall>v \<in> set vs. 0 \<le> v \<and> v \<le> 1000 \<and> v < 2 ^ 16"
    using t(6) by auto
  show ?thesis
    using t(1,2,3,4,5,7,12) wr rd rng by auto
qed

theorem refresher_tick_witness:
  "read_bank (run 1 sample_raw) 1 4 0 10 = Inr [5, 12, 19, 26, 33, 40, 47, 54, 61, 68]
   \<and> read_bank (run 1 sample_raw) 3 4 0 10 = Inr [5, 12, 19, 26, 33, 40, 47, 54, 61, 68]"
proof -
  obtain w w' vs where t: "run 0 sample_raw = Inr w" "run (Suc 0) sample_raw = Inr w'"
    "sync_values sample_raw (rng_pos w) = Inr (vs, rng_pos w')"
    "\<forall>slave_id \<in> {1, 2, 3}. context_getValues main_context (heap w') slave_id 4 0 10 = Inr vs"
    using refresher_tick [of 0 sample_raw] by blast
  have "rng_pos w = 0"
    using t(1) by (auto simp: run_0 main_eq)
  then have "vs = [5, 12, 19, 26, 33, 40, 47, 54, 61, 68]"
    using t(3) by (simp add: sample_values_0)
  then show ?thesis
    using t(2,4) by (simp add: read_bank_def)
qed

section \<open>Requests\<close>

lemma unit_id_cases:
  fixes u :: "8 word"
  shows "(uint u = 1) = (u = 1)" and "(uint u = 2) = (u = 2)" and "(uint u = 3) = (u = 3)"
  by (simp_all add: word_uint_eq_iff)

lemma main_slave_validate:
  assumes "fx \<in> dom fx_mapper"
  shows "slave_validate (ModbusSlaveContext block block block block) h fx a n =
           Inr (block_validate (h block) (a + 1) n)"
  using assms by (simp add: slave_validate_def bank_ref_shared)

lemma main_slave_getValues:
  assumes "fx \<in> dom fx_mapper"
  shows "slave_getValues (ModbusSlaveContext block block block block) h fx a n =
           Inr (block_getValues (h block) (a + 1) n)"
  using assms by (simp add: slave_getValues_def bank_ref_shared)

lemma execute_read_ten:
  assumes "block_address (h block) = 0" and "block_values (h block) = x # vs"
    and "length vs = 10"
  shows "execute (ModbusSlaveContext block block block block) h 0 10
           = Inr (ReadInputRegistersResponse vs)"
proof -
  have v: "block_validate (h block) (0 + 1) 10"
    using assms by (simp add: block_validate_def)
  have r: "block_getValues (h block) (0 + 1) 10 = vs"
    using block_getValues_one [of "h block" x vs "[]" 10] assms by simp
  show ?thesis
    using v r by (simp add: execute_def main_slave_validate main_slave_getValues fx4_mapped)
qed

text \<open>
  C2. The program starts with a block of ten zeros. After the first iteration of the
  refresher has written its 10-value sequence, a read-input-registers request (function
  code 4) for offset 0, count 10 to unit id 1, 2 or 3 is answered with exactly that
  sequence.
\<close>

theorem read_after_first_tick:
  "\<exists>w0 w1 vs. main = Inr w0 \<and> block_values (heap w0 block) = replicate 10 0
      \<and> sync_iteration raw main_context w0 = Inr w1 \<and> run 1 raw = Inr w1
      \<and> sync_values raw 0 = Inr (vs, 10) \<and> length vs = 10
      \<and> (\<forall>slave_id \<in> {1, 2, 3}.
            read_input_registers (Inr w1) slave_id 0 10 = Inr (ReadInputRegistersResponse vs))"
proof -
  obtain w w' vs x xs where t: "run 0 raw = Inr w" "run (Suc 0) raw = Inr w'"
    "sync_iteration raw main_context w = Inr w'"
    "sync_values raw (rng_pos w) = Inr (vs, rng_pos w + 10)" "length vs = 10"
    "rng_pos w = 10 * 0" "block_address (heap w block) = 0"
    "w' = \<lparr>heap = (heap w)(block := (heap w block)\<lparr>block_values := 0 # vs\<rparr>),
               rng_pos = rng_pos w + 10, slept_ms = slept_ms w + 100\<rparr>"
    using run_tick [of 0 raw] by blast
  have m: "main = Inr w"
    using t(1) by (simp add: run_0)
  have z: "block_values (heap w block) = replicate 10 0"
    using m by (auto simp: main_eq)
  have e: "execute (ModbusSlaveContext block block block block) (heap w') 0 10
             = Inr (ReadInputRegistersResponse vs)"
    using execute_read_ten [of "heap w'" 0 vs] t(5,7,8) by simp
  have d: "read_input_registers (Inr w') k 0 10 = Inr (ReadInputRegistersResponse vs)"
    if "k = 1 \<or> k = 2 \<or> k = 3" for k
    using that e by (simp add: read_input_registers_def main_getitem)
  show ?thesis
    using m z t(2,3,4,5,6) d by auto
qed

theorem read_after_first_tick_witness:
  "read_input_registers (run 1 sample_raw) 2 0 10
     = Inr (ReadInputRegistersResponse [5, 12, 19, 26, 33, 40, 47, 54, 61, 68])"
proof -
  obtain w1 vs where t: "run 1 sample_raw = Inr w1" "sync_values sample_raw 0 = Inr (vs, 10)"
    "\<forall>slave_id \<in> {1, 2, 3}.
       read_input_registers (Inr w1) slave_id 0 10 = Inr (ReadInputRegistersResponse vs)"
    using read_after_first_tick [of sample_raw] by blast
  have "vs = [5, 12, 19, 26, 33, 40, 47, 54, 61, 68]"
    using t(2) by (simp add: sample_values_0)
  then show ?thesis
    using t(1,3) by simp
qed

text \<open>
  C6. For a request whose unit id is none of 1, 2, 3, the lookup in the server context
  raises NoSuchSlaveException, and the dispatcher answers with the request's function code
  OR 0x80 and the single payload byte 11, whatever the heap holds: no data block is read,
  and the dispatcher cannot write one.
\<close>

theorem unknown_slave_exception:
  assumes "unit_id rq \<notin> {1, 2, 3}"
  shows "context_getitem main_context (uint (unit_id rq)) = Inl NoSuchSlaveException
     \<and> dispatch main_context h rq =
         \<lparr>rsp_transaction_id = transaction_id rq, rsp_unit_id = unit_id rq,
          rsp_function_code = function_code rq OR 0x80, rsp_payload = [11]\<rparr>"
  using assms
  by (simp add: dispatch_def main_getitem unit_id_cases exception_response_def)

theorem unknown_slave_exception_witness:
  "(7 :: 8 word) \<notin> {1, 2, 3}
   \<and> serve main (read_request 7 3) =
       Inr \<lparr>rsp_transaction_id = 1, rsp_unit_id = 7, rsp_function_code = 0x83, rsp_payload = [11]\<rparr>"
proof -
  have u: "unit_id (read_request 7 3) \<notin> {1, 2, 3}"
    by (simp add: read_request_def)
  show ?thesis
    using unknown_slave_exception [OF u, of "empty_heap(block := \<lparr>block_address = 0,
      block_values = replicate 10 0, default_value = 0\<rparr>)"]
    by (simp add: serve_def main_eq read_request_def)
qed

section \<open>The shape of the block over time\<close>

text \<open>
  C9. The block starts with base address 0 and ten zeros. After every iteration of the
  refresher it holds 11 values: the value 0 at index 0, followed at indices 1 to 10 by the
  sequence of that iteration. So the first iteration grows the block from 10 to 11 values,
  and index 0 holds 0 after every iteration.
\<close>

theorem block_growth:
  "(\<exists>w. run 0 raw = Inr w \<and> block_address (heap w block) = 0
          \<and> block_values (heap w block) = replicate 10 0)
   \<and> (\<exists>w vs. run (Suc n) raw = Inr w \<and> sync_values raw (10 * n) = Inr (vs, 10 * n + 10)
          \<and> length vs = 10 \<and> block_address (heap w block) = 0
          \<and> block_values (heap w block) = 0 # vs
          \<and> length (block_values (heap w block)) = 11
          \<and> block_values (heap w block) ! 0 = 0
          \<and> take 10 (drop 1 (block_values (heap w block))) = vs)"
proof -
  have first: "\<exists>w. run 0 raw = Inr w \<and> block_address (heap w block) = 0
          \<and> block_values (heap w block) = replicate 10 0"
    by (simp add: run_0 main_eq)
  obtain w w' vs where t: "run n raw = Inr w" "run (Suc n) raw = Inr w'"
    "sync_values raw (rng_pos w) = Inr (vs, rng_pos w + 10)" "length vs = 10"
    "rng_pos w = 10 * n" "block_address (heap w block) = 0"
    "w' = \<lparr>heap = (heap w)(block := (heap w block)\<lparr>block_values := 0 # vs\<rparr>),
               rng_pos = rng_pos w + 10, slept_ms = slept_ms w + 100\<rparr>"
    using run_tick [of n raw] by blast
  have later: "\<exists>w vs. run (Suc n) raw = Inr w \<and> sync_values raw (10 * n) = Inr (vs, 10 * n + 10)
          \<and> length vs = 10 \<and> block_address (heap w block) = 0
          \<and> block_values (heap w block) = 0 # vs
          \<and> length (block_values (heap w block)) = 11
          \<and> block_values (heap w block) ! 0 = 0
          \<and> take 10 (drop 1 (block_values (heap w block))) = vs"
    using t by auto
  show ?thesis
    using first later by blast
qed

theorem block_growth_witness:
  "block_contents (run 0 sample_raw) = Inr [0, 0, 0, 0, 0, 0, 0, 0, 0, 0]
   \<and> block_contents (run 1 sample_raw) = Inr [0, 5, 12, 19, 26, 33, 40, 47, 54, 61, 68]"
proof -
  obtain w0 w vs where t: "run 0 sample_raw = Inr w0"
    "block_values (heap w0 block) = replicate 10 0"
    "run (Suc 0) sample_raw = Inr w" "sync_values sample_raw (10 * 0) = Inr (vs, 10 * 0 + 10)"
    "block_values (heap w block) = 0 # vs"
    using block_growth [of sample_raw 0] by blast
  have "vs = [5, 12, 19, 26, 33, 40, 47, 54, 61, 68]"
    using t(4) by (simp add: sample_values_0)
  then show ?thesis
    using t(1,2,3,5) by (simp add: block_contents_def numeral_eq_Suc)
qed

text \<open>
  C10. An iteration draws one sequence: the generator advances by exactly 10 draws. The
  same sequence is written through slave ids 1, 2 and 3 (the second and third write leave the
  heap as the first made it), and afterwards the input registers read through the three unit
  ids are equal for every address and count, and equal to the sequence at offset 0, count
  10.
\<close>

theorem same_values_all_slaves:
  "\<exists>w w' vs. run n raw = Inr w \<and> run (Suc n) raw = Inr w'
      \<and> sync_values raw (rng_pos w) = Inr (vs, rng_pos w') \<and> rng_pos w' = rng_pos w + 10
      \<and> context_setValues main_context 1 4 0 vs (heap w) = Inr (heap w')
      \<and> context_setValues main_context 2 4 0 vs (heap w') = Inr (heap w')
      \<and> context_setValues main_context 3 4 0 vs (heap w') = Inr (heap w')
      \<and> (\<forall>a c. context_getValues main_context (heap w') 1 4 a c
                  = context_getValues main_context (heap w') 2 4 a c
              \<and> context_getValues main_context (heap w') 2 4 a c
                  = context_getValues main_context (heap w') 3 4 a c)
      \<and> context_getValues main_context (heap w') 1 4 0 10 = Inr vs
      \<and> context_getValues main_context (heap w') 2 4 0 10 = Inr vs
      \<and> context_getValues main_context (heap w') 3 4 0 10 = Inr vs"
proof -
  obtain w w' vs x xs where t: "run n raw = Inr w" "run (Suc n) raw = Inr w'"
    "sync_values raw (rng_pos w) = Inr (vs, rng_pos w + 10)" "length vs = 10"
    "block_address (heap w block) = 0" "block_values (heap w block) = x # xs"
    "length xs = 9 \<or> length xs = 10" "x = 0"
    "w' = \<lparr>heap = (heap w)(block := (heap w block)\<lparr>block_values := 0 # vs\<rparr>),
               rng_pos = rng_pos w + 10, slept_ms = slept_ms w + 100\<rparr>"
    using run_tick [of n raw] by blast
  have s1: "context_setValues main_context 1 4 0 vs (heap w) = Inr (heap w')"
    using main_setValues [of 1 "heap w" x xs vs] t(4,5,6,7,8,9) by auto
  have again: "context_setValues main_context k 4 0 vs (heap w') = Inr (heap w')"
    if "k = 1 \<or> k = 2 \<or> k = 3" for k
    using main_setValues [of k "heap w'" 0 vs vs] that t(4,5,9) by simp
  have rd: "context_getValues main_context (heap w') k 4 a c
              = Inr (block_getValues (heap w' block) (a + 1) c)"
    if "k = 1 \<or> k = 2 \<or> k = 3" for k a c
    using that by (simp add: main_getValues fx4_mapped)
  have ten: "block_getValues (heap w' block) (0 + 1) 10 = vs"
    using block_getValues_one [of "heap w' block" 0 vs "[]" 10] t(4,5,9) by simp
  show ?thesis
    using t(1,2,3,9) s1 again [of 2] again [of 3] rd ten by auto
qed

theorem same_values_all_slaves_witness:
  "read_bank (run 2 sample_raw) 1 4 0 10 = read_bank (run 2 sample_raw) 2 4 0 10
   \<and> read_bank (run 2 sample_raw) 2 4 0 10 = read_bank (run 2 sample_raw) 3 4 0 10"
proof -
  obtain w' vs where t: "run (Suc 1) sample_raw = Inr w'"
    "context_getValues main_context (heap w') 1 4 0 10 = Inr vs"
    "context_getValues main_context (heap w') 2 4 0 10 = Inr vs"
    "context_getValues main_context (heap w') 3 4 0 10 = Inr vs"
    using same_values_all_slaves [of 1 sample_raw] by blast
  have "run 2 sample_raw = Inr w'"
    using t(1) by (simp add: numeral_2_eq_2)
  then show ?thesis
    using t(2,3,4) by (simp add: read_bank_def)
qed

section \<open>One block behind every bank and every unit id\<close>

lemma run_1_sample:
  "run (Suc 0) sample_raw =
     Inr \<lparr>heap = empty_heap(block := \<lparr>block_address = 0,
             block_values = [0, 5, 12, 19, 26, 33, 40, 47, 54, 61, 68], default_value = 0\<rparr>),
          rng_pos = 10, slept_ms = 100\<rparr>"
proof -
  obtain w w' vs where t: "run 0 sample_raw = Inr w" "run (Suc 0) sample_raw = Inr w'"
    "sync_values sample_raw (rng_pos w) = Inr (vs, rng_pos w + 10)"
    "w' = \<lparr>heap = (heap w)(block := (heap w block)\<lparr>block_values := 0 # vs\<rparr>),
               rng_pos = rng_pos w + 10, slept_ms = slept_ms w + 100\<rparr>"
    using run_tick [of 0 sample_raw] by blast
  have w: "w = \<lparr>heap = empty_heap(block := \<lparr>block_address = 0, block_values = replicate 10 0,
                   default_value = 0\<rparr>), rng_pos = 0, slept_ms = 0\<rparr>"
    using t(1) by (simp add: run_0 main_eq)
  have "vs = [5, 12, 19, 26, 33, 40, 47, 54, 61, 68]"
    using t(3) by (simp add: w sample_values_0)
  then show ?thesis
    using t(2,4) by (simp add: w)
qed

lemma read_main:
  assumes "k = 1 \<or> k = 2 \<or> k = 3" and "fx \<in> dom fx_mapper"
  shows "read_bank main k fx a n = Inr (get_slice (replicate 10 0) (a + 1) (a + 1 + n))"
  using assms by (simp add: read_bank_def main_eq main_getValues block_getValues_def Let_def)

lemma fx3_mapped: "3 \<in> dom fx_mapper"
  by (simp add: fx_mapper_def)

text \<open>
  C3 as stated fails. All four banks of a slave are the same block, so the iteration that
  writes the input registers changes what the holding registers (function code 3) read: five
  zeros before the first iteration, the first five values of the sequence after it.
\<close>

theorem tick_changes_other_banks:
  "read_bank main 1 3 0 5 = Inr [0, 0, 0, 0, 0]
   \<and> read_bank (run 1 sample_raw) 1 3 0 5 = Inr [5, 12, 19, 26, 33]
   \<and> read_bank (run 1 sample_raw) 1 3 0 5 \<noteq> read_bank main 1 3 0 5"
proof -
  have before: "read_bank main 1 3 0 5 = Inr [0, 0, 0, 0, 0]"
    by (simp add: read_main fx3_mapped get_slice_def slice_bound_def numeral_eq_Suc)
  have after: "read_bank (run 1 sample_raw) 1 3 0 5 = Inr [5, 12, 19, 26, 33]"
    by (simp add: run_1_sample read_bank_def main_getValues fx3_mapped block_getValues_def
        get_slice_def slice_bound_def Let_def)
  show ?thesis
    using before after by simp
qed

text \<open>
  C3, amended. An iteration of the refresher writes through function code 4 only and
  changes no data block but the one the input-register bank refers to, whose base address
  it keeps. Every function code 1 to 4 of the script's slaves selects that same block, so
  after the iteration offset 0, count 10 of the coil, discrete-input and holding-register
  banks of every slave reads the sequence just written, as the input-register bank does.
\<close>

theorem tick_frame:
  "\<exists>w w' vs. run n raw = Inr w \<and> run (Suc n) raw = Inr w'
      \<and> sync_values raw (rng_pos w) = Inr (vs, rng_pos w')
      \<and> write_slaves main_context [1, 2, 3] vs (heap w) = Inr (heap w')
      \<and> (\<forall>r. r \<noteq> block \<longrightarrow> heap w' r = heap w r)
      \<and> block_address (heap w' block) = block_address (heap w block)
      \<and> (\<forall>slave_id \<in> {1, 2, 3}. \<forall>fx \<in> {1, 2, 3, 4}.
            bank_ref (ModbusSlaveContext block block block block) fx = Inr block
            \<and> context_getValues main_context (heap w') slave_id fx 0 10 = Inr vs)"
proof -
  obtain w w' vs x xs where t: "run n raw = Inr w" "run (Suc n) raw = Inr w'"
    "sync_values raw (rng_pos w) = Inr (vs, rng_pos w + 10)" "length vs = 10"
    "block_address (heap w block) = 0" "block_values (heap w block) = x # xs"
    "length xs = 9 \<or> length xs = 10" "x = 0"
    "w' = \<lparr>heap = (heap w)(block := (heap w block)\<lparr>block_values := 0 # vs\<rparr>),
               rng_pos = rng_pos w + 10, slept_ms = slept_ms w + 100\<rparr>"
    using run_tick [of n raw] by blast
  have wr: "write_slaves main_context [1, 2, 3] vs (heap w) = Inr (heap w')"
    using write_slaves_tick [of "heap w" x xs vs] t(4,5,6,7,8,9) by auto
  have ten: "block_getValues (heap w' block) (0 + 1) 10 = vs"
    using block_getValues_one [of "heap w' block" 0 vs "[]" 10] t(4,5,9) by simp
  have rd: "bank_ref (ModbusSlaveContext block block block block) fx = Inr block
            \<and> context_getValues main_context (heap w') k fx 0 10 = Inr vs"
    if "k = 1 \<or> k = 2 \<or> k = 3" "fx = 1 \<or> fx = 2 \<or> fx = 3 \<or> fx = 4" for k fx
    using that ten fx_mapped [of fx] by (simp add: main_getValues bank_ref_shared)
  show ?thesis
    using t(1,2,3,5,9) wr rd by auto
qed

theorem tick_frame_witness:
  "read_bank (run 1 sample_raw) 2 1 0 10 = Inr [5, 12, 19, 26, 33, 40, 47, 54, 61, 68]
   \<and> read_bank (run 1 sample_raw) 2 2 0 10 = Inr [5, 12, 19, 26, 33, 40, 47, 54, 61, 68]"
proof -
  obtain w w' vs where t: "run 0 sample_raw = Inr w" "run (Suc 0) sample_raw = Inr w'"
    "sync_values sample_raw (rng_pos w) = Inr (vs, rng_pos w')"
    "\<forall>slave_id \<in> {1, 2, 3}. \<forall>fx \<in> {1, 2, 3, 4}.
            bank_ref (ModbusSlaveContext block block block block) fx = Inr block
            \<and> context_getValues main_context (heap w') slave_id fx 0 10 = Inr vs"
    using tick_frame [of 0 sample_raw] by blast
  have "rng_pos w = 0"
    using t(1) by (auto simp: run_0 main_eq)
  then have "vs = [5, 12, 19, 26, 33, 40, 47, 54, 61, 68]"
    using t(3) by (simp add: sample_values_0)
  then show ?thesis
    using t(2,4) by (simp add: read_bank_def)
qed

text \<open>
  C4 as stated fails. The three unit ids do not have stores of their own: a write through
  unit id 1 changes what unit id 2 reads.
\<close>

theorem write_seen_by_other_unit:
  "read_bank main 2 4 0 1 = Inr [0]
   \<and> read_bank (write_bank main 1 4 0 [7]) 2 4 0 1 = Inr [7]
   \<and> read_bank (write_bank main 1 4 0 [7]) 2 4 0 1 \<noteq> read_bank main 2 4 0 1"
proof -
  have before: "read_bank main 2 4 0 1 = Inr [0]"
    by (simp add: read_main fx4_mapped get_slice_def slice_bound_def numeral_eq_Suc)
  have after: "read_bank (write_bank main 1 4 0 [7]) 2 4 0 1 = Inr [7]"
    by (simp add: write_bank_def read_bank_def main_eq main_setValues_any main_getValues
        fx4_mapped block_setValues_def block_getValues_def set_slice_def get_slice_def
        slice_bound_def numeral_eq_Suc Let_def)
  show ?thesis
    using before after by simp
qed

lemma main_context_single: "single main_context = False"
  by (simp add: main_context_def ModbusServerContext_def)

lemma main_context_ids:
  "\<forall>k. (context_getitem main_context k = Inl NoSuchSlaveException) = (k \<notin> {1, 2, 3})"
  by (simp add: main_getitem)

text \<open>
  C4, amended. The server context is built with \<open>single=False\<close> and has exactly the unit
  ids 1, 2 and 3 (the lookup of any other raises NoSuchSlaveException), each with a slave
  context; but every bank of every one of them is the one shared block. So a write through any unit id and any function code succeeds, changes that
  block only, and afterwards every read through any other unit id returns the same as the
  read through the writing unit id.
\<close>

theorem shared_block:
  "single main_context = False
   \<and> (\<forall>k. (context_getitem main_context k = Inl NoSuchSlaveException) = (k \<notin> {1, 2, 3}))
   \<and> (\<forall>i \<in> {1, 2, 3}. \<forall>j \<in> {1, 2, 3}. \<forall>fx \<in> dom fx_mapper. \<forall>fx' \<in> dom fx_mapper.
        context_getitem main_context i = Inr (Slave (ModbusSlaveContext block block block block))
        \<and> bank_ref (ModbusSlaveContext block block block block) fx = Inr block
        \<and> (\<forall>h a vs a' n. \<exists>h'.
              context_setValues main_context i fx a vs h = Inr h'
              \<and> h' = h(block := block_setValues (h block) (a + 1) vs)
              \<and> context_getValues main_context h' j fx' a' n
                  = context_getValues main_context h' i fx' a' n
              \<and> context_getValues main_context h' j fx' a' n
                  = Inr (block_getValues (h' block) (a' + 1) n)))"
proof -
  have one: "context_getitem main_context i = Inr (Slave (ModbusSlaveContext block block block block))
        \<and> bank_ref (ModbusSlaveContext block block block block) fx = Inr block
        \<and> (\<forall>h a vs a' n. \<exists>h'.
              context_setValues main_context i fx a vs h = Inr h'
              \<and> h' = h(block := block_setValues (h block) (a + 1) vs)
              \<and> context_getValues main_context h' j fx' a' n
                  = context_getValues main_context h' i fx' a' n
              \<and> context_getValues main_context h' j fx' a' n
                  = Inr (block_getValues (h' block) (a' + 1) n))"
    if "i \<in> {1, 2, 3}" "j \<in> {1, 2, 3}" "fx \<in> dom fx_mapper"
      "fx' \<in> dom fx_mapper" for i j fx fx'
  proof -
    have i: "i = 1 \<or> i = 2 \<or> i = 3" and j: "j = 1 \<or> j = 2 \<or> j = 3"
      using that(1,2) by auto
    show ?thesis
      using i j that(3,4)
      by (simp add: main_getitem bank_ref_shared main_setValues_any main_getValues)
  qed
  have all: "\<forall>i \<in> {1, 2, 3}. \<forall>j \<in> {1, 2, 3}. \<forall>fx \<in> dom fx_mapper. \<forall>fx' \<in> dom fx_mapper.
        context_getitem main_context i = Inr (Slave (ModbusSlaveContext block block block block))
        \<and> bank_ref (ModbusSlaveContext block block block block) fx = Inr block
        \<and> (\<forall>h a vs a' n. \<exists>h'.
              context_setValues main_context i fx a vs h = Inr h'
              \<and> h' = h(block := block_setValues (h block) (a + 1) vs)
              \<and> context_getValues main_context h' j fx' a' n
                  = context_getValues main_context h' i fx' a' n
              \<and> context_getValues main_context h' j fx' a' n
                  = Inr (block_getValues (h' block) (a' + 1) n))"
    by (intro ballI) (rule one)
  show ?thesis
    by (intro conjI) (rule main_context_single main_context_ids all)+
qed

theorem shared_block_witness:
  "context_getValues main_context
     (empty_heap(block := block_setValues (empty_heap block) (0 + 1) [7])) 2 4 0 1
   = context_getValues main_context
     (empty_heap(block := block_setValues (empty_heap block) (0 + 1) [7])) 1 4 0 1"
proof -
  note all = shared_block [THEN conjunct2, THEN conjunct2]
  have m1: "(1::int) \<in> {1, 2, 3}" and m2: "(2::int) \<in> {1, 2, 3}"
    by simp_all
  note inst = bspec [OF bspec [OF bspec [OF bspec [OF all m1] m2] fx4_mapped] fx4_mapped]
  obtain h' where h': "h' = empty_heap(block := block_setValues (empty_heap block) (0 + 1) [7])"
    "context_getValues main_context h' 2 4 0 1 = context_getValues main_context h' 1 4 0 1"
    using inst by blast
  show ?thesis
    using h'(2) unfolding h'(1) .
qed

section \<open>Reading and writing a bank\<close>

lemma slave_address_bound: "slave_address s a \<le> a + 1"
  by (simp add: slave_address_def)

lemma block_get_set:
  assumes "0 \<le> a - block_address b"
    and "nat (a - block_address b) \<le> length (block_values b) \<or> vs = []"
  shows "block_getValues (block_setValues b a vs) a (int (length vs)) = vs"
  using get_set_slice [of "a - block_address b" "block_values b" vs] assms
  by (simp add: block_getValues_def block_setValues_def Let_def)

text \<open>
  C7. For a bank of a slave context (a block with a base address from 0, not above the
  address the slave context maps the offset to), a value sequence and an offset with offset
  + count at most the bank's length, where count is the length of the sequence: writing the
  sequence at the offset succeeds, and reading (offset, count) from the same bank afterwards
  returns exactly the sequence.
\<close>

theorem read_after_write:
  assumes "bank_ref s fx = Inr r" and "0 \<le> block_address (h r)"
    and "block_address (h r) \<le> slave_address s offset"
    and "offset + int (length vs) \<le> int (length (block_values (h r)))"
  shows "\<exists>h'. slave_setValues s fx offset vs h = Inr h'
           \<and> slave_getValues s h' fx offset (int (length vs)) = Inr vs"
proof -
  let ?a = "slave_address s offset"
  have start: "0 \<le> ?a - block_address (h r)"
    using assms(3) by simp
  have inside: "nat (?a - block_address (h r)) \<le> length (block_values (h r)) \<or> vs = []"
  proof (cases vs)
    case Nil
    then show ?thesis by simp
  next
    case (Cons v vs')
    then have "offset + 1 \<le> int (length (block_values (h r)))"
      using assms(4) by simp
    then show ?thesis
      using slave_address_bound [of s offset] assms(2) by linarith
  qed
  have "block_getValues (block_setValues (h r) ?a vs) ?a (int (length vs)) = vs"
    using start inside by (rule block_get_set)
  then show ?thesis
    using assms(1) by (simp add: slave_setValues_def slave_getValues_def)
qed

theorem read_after_write_witness:
  "\<exists>h'. slave_setValues (ModbusSlaveContext block block block block) 3 2 [7, 8, 9]
           (empty_heap(block := \<lparr>block_address = 0, block_values = replicate 10 0,
              default_value = 0\<rparr>)) = Inr h'
        \<and> slave_getValues (ModbusSlaveContext block block block block) h' 3 2 3 = Inr [7, 8, 9]"
proof -
  let ?s = "ModbusSlaveContext block block block block"
  let ?h = "empty_heap(block := \<lparr>block_address = 0, block_values = replicate 10 0,
              default_value = 0\<rparr>)"
  have r: "bank_ref ?s 3 = Inr block"
    by (simp add: bank_ref_shared fx3_mapped)
  have b: "0 \<le> block_address (?h block)"
    by simp
  have a: "block_address (?h block) \<le> slave_address ?s 2"
    by simp
  have l: "2 + int (length [7, 8, 9 :: int]) \<le> int (length (block_values (?h block)))"
    by simp
  show ?thesis
    using read_after_write [of ?s 3 block ?h 2 "[7, 8, 9]", OF r b a l] by simp
qed

lemma set_slice_grows:
  assumes "0 \<le> i" and "vs \<noteq> []" and "int (length xs) < i + int (length vs)"
  shows "length xs < length (set_slice xs i (i + int (length vs)) vs)"
proof -
  have lo: "slice_bound i (length xs) = min (nat i) (length xs)"
    using assms(1) by (simp add: slice_bound_nonneg)
  have "slice_bound (i + int (length vs)) (length xs) = min (nat i + length vs) (length xs)"
    using assms(1) by (simp add: slice_bound_nonneg nat_add_distrib)
  moreover have "length xs < nat i + length vs"
    using assms(1,3) by linarith
  ultimately have hi: "slice_bound (i + int (length vs)) (length xs) = length xs"
    by simp
  have "0 < length vs"
    using assms(2) by simp
  then show ?thesis
    using \<open>length xs < nat i + length vs\<close>
    by (simp add: set_slice_def lo hi Let_def min_def max_def)
qed

lemma get_slice_short:
  assumes "0 \<le> i" and "0 < n" and "int (length xs) < i + int n"
  shows "length (get_slice xs i (i + int n)) < n"
  using assms get_slice_inside [of i "int n" xs] by auto

text \<open>
  C8 as stated fails. On the block of ten zeros, offset 5 with count 10 is out of range,
  yet neither operation raises: the read returns the four values that exist, and the write
  succeeds and leaves a block of sixteen values.
\<close>

theorem out_of_range_no_error:
  "read_bank main 1 4 5 10 = Inr [0, 0, 0, 0]
   \<and> block_contents main = Inr [0, 0, 0, 0, 0, 0, 0, 0, 0, 0]
   \<and> block_contents (write_bank main 1 4 5 [1, 2, 3, 4, 5, 6, 7, 8, 9, 10])
       = Inr [0, 0, 0, 0, 0, 0, 1, 2, 3, 4, 5, 6, 7, 8, 9, 10]"
proof -
  have rd: "read_bank main 1 4 5 10 = Inr [0, 0, 0, 0]"
    by (simp add: read_main fx4_mapped get_slice_def slice_bound_def numeral_eq_Suc)
  have b: "block_contents main = Inr [0, 0, 0, 0, 0, 0, 0, 0, 0, 0]"
    by (simp add: block_contents_def main_eq numeral_eq_Suc)
  have wr: "block_contents (write_bank main 1 4 5 [1, 2, 3, 4, 5, 6, 7, 8, 9, 10])
       = Inr [0, 0, 0, 0, 0, 0, 1, 2, 3, 4, 5, 6, 7, 8, 9, 10]"
    by (simp add: block_contents_def write_bank_def main_eq main_setValues_any fx4_mapped
        block_setValues_def set_slice_def slice_bound_def Let_def numeral_eq_Suc)
  show ?thesis
    using rd b wr by simp
qed

text \<open>
  C8, amended. For a bank of a slave context as the script builds them (base address 0,
  \<open>zero_mode\<close> off), an offset from 0 and a non-empty sequence with offset + count above
  the bank's length: \<open>validate\<close> returns False; \<open>getValues\<close> raises nothing and returns
  fewer than count values; \<open>setValues\<close> raises nothing, succeeds and leaves the bank
  longer than it was.
\<close>

theorem out_of_range_access:
  assumes "bank_ref s fx = Inr r" and "\<not> zero_mode s" and "block_address (h r) = 0"
    and "0 \<le> offset" and "vs \<noteq> []"
    and "int (length (block_values (h r))) < offset + int (length vs)"
  shows "slave_validate s h fx offset (int (length vs)) = Inr False
     \<and> (\<exists>ys. slave_getValues s h fx offset (int (length vs)) = Inr ys \<and> length ys < length vs)
     \<and> (\<exists>h'. slave_setValues s fx offset vs h = Inr h'
            \<and> length (block_values (h r)) < length (block_values (h' r)))"
proof -
  have a: "slave_address s offset = offset + 1"
    using assms(2) by (simp add: slave_address_def)
  have v: "slave_validate s h fx offset (int (length vs)) = Inr False"
    using assms(1,3,6) by (simp add: slave_validate_def block_validate_def a)
  have "length (get_slice (block_values (h r)) (offset + 1) (offset + 1 + int (length vs)))
          < length vs"
    using get_slice_short [of "offset + 1" "length vs" "block_values (h r)"] assms(4,5,6) by simp
  then have g: "\<exists>ys. slave_getValues s h fx offset (int (length vs)) = Inr ys
                  \<and> length ys < length vs"
    using assms(1,3) by (simp add: slave_getValues_def block_getValues_def a Let_def)
  have "length (block_values (h r))
          < length (set_slice (block_values (h r)) (offset + 1) (offset + 1 + int (length vs)) vs)"
    using set_slice_grows [of "offset + 1" vs "block_values (h r)"] assms(4,5,6) by simp
  then have w: "\<exists>h'. slave_setValues s fx offset vs h = Inr h'
            \<and> length (block_values (h r)) < length (block_values (h' r))"
    using assms(1,3) by (simp add: slave_setValues_def block_setValues_def a Let_def)
  show ?thesis
    using v g w by simp
qed

theorem out_of_range_access_witness:
  "slave_validate (ModbusSlaveContext block block block block)
     (empty_heap(block := \<lparr>block_address = 0, block_values = replicate 10 0,
        default_value = 0\<rparr>)) 4 5 10 = Inr False"
proof -
  let ?s = "ModbusSlaveContext block block block block"
  let ?h = "empty_heap(block := \<lparr>block_address = 0, block_values = replicate 10 0,
              default_value = 0\<rparr>)"
  let ?vs = "[1, 2, 3, 4, 5, 6, 7, 8, 9, 10 :: int]"
  have r: "bank_ref ?s 4 = Inr block"
    by (simp add: bank_ref_shared fx4_mapped)
  have z: "\<not> zero_mode ?s"
    by (simp add: ModbusSlaveContext_def)
  have b: "block_address (?h block) = 0"
    by simp
  have o: "(0::int) \<le> 5"
    by simp
  have n: "?vs \<noteq> []"
    by simp
  have l: "int (length (block_values (?h block))) < 5 + int (length ?vs)"
    by simp
  show ?thesis
    using out_of_range_access [of ?s 4 block ?h 5 ?vs, OF r z b o n l] by simp
qed

end
